theory Spec2Isabelle
  imports Main "HOL-Library.Sublist" "HOL-Library.Char_ord" "HOL-Library.List_Lexorder"
begin

section \<open>Python strings\<close>

text \<open>
  A Python \<open>str\<close> is modelled as a \<open>string\<close>; the code points are those below 256.
  Strings are compared as Python compares them: lexicographically by code point.
\<close>

abbreviation bslash :: char where
  "bslash \<equiv> CHR 0x5C"

abbreviation tab :: char where
  "tab \<equiv> CHR 0x09"

text \<open>\<open>s.split(sep)\<close> for a separator of one character: the result is never empty.\<close>

fun split_on :: "char \<Rightarrow> string \<Rightarrow> string list" where
  "split_on sep [] = [[]]"
| "split_on sep (c # cs) =
     (if c = sep then [] # split_on sep cs
      else (case split_on sep cs of
              [] \<Rightarrow> [[c]]
            | x # xs \<Rightarrow> (c # x) # xs))"

text \<open>\<open>sep.join(parts)\<close> for a separator of one character.\<close>

fun join_with :: "char \<Rightarrow> string list \<Rightarrow> string" where
  "join_with sep [] = []"
| "join_with sep [p] = p"
| "join_with sep (p # q # ps) = p @ sep # join_with sep (q # ps)"

text \<open>\<open>sub in s\<close>.\<close>

fun contains :: "string \<Rightarrow> string \<Rightarrow> bool" where
  "contains [] sub = (sub = [])"
| "contains (c # cs) sub = (prefix sub (c # cs) \<or> contains cs sub)"

text \<open>\<open>s.endswith(suffixes)\<close> for a tuple of suffixes.\<close>

definition endswith :: "string \<Rightarrow> string list \<Rightarrow> bool" where
  "endswith s sufs = (\<exists>x \<in> set sufs. suffix x s)"

text \<open>
  \<open>s.find(sub, start)\<close> for \<open>start \<ge> 0\<close>: the lowest index at or after \<open>start\<close> where
  \<open>sub\<close> occurs, or \<open>-1\<close>.
\<close>

fun find_from :: "string \<Rightarrow> string \<Rightarrow> nat \<Rightarrow> int" where
  "find_from sub [] i = (if sub = [] then int i else - 1)"
| "find_from sub (c # cs) i =
     (if prefix sub (c # cs) then int i else find_from sub cs (Suc i))"

definition py_find :: "string \<Rightarrow> string \<Rightarrow> nat \<Rightarrow> int" where
  "py_find s sub start =
     (if length s < start then - 1 else find_from sub (drop start s) start)"

text \<open>\<open>s[start:end]\<close> for \<open>start \<ge> 0\<close>; a negative end counts from the end of \<open>s\<close>.\<close>

definition py_slice :: "string \<Rightarrow> nat \<Rightarrow> int \<Rightarrow> string" where
  "py_slice s start stop =
     (let n = int (length s);
          e = (if stop < 0 then max 0 (n + stop) else min stop n)
      in take (nat e - start) (drop start s))"

text \<open>The characters for which \<open>str.isspace\<close> holds, and \<open>s.strip()\<close>.\<close>

definition is_space :: "char \<Rightarrow> bool" where
  "is_space c =
     (let n = (of_char c :: nat)
      in (9 \<le> n \<and> n \<le> 13) \<or> (28 \<le> n \<and> n \<le> 32) \<or> n = 133 \<or> n = 160)"

definition strip :: "string \<Rightarrow> string" where
  "strip s = rev (dropWhile is_space (rev (dropWhile is_space s)))"

text \<open>
  \<open>s.splitlines()\<close>: a line ends at a line boundary (\<open>\r\n\<close> is one boundary); a last
  line without a boundary is kept when it is not empty.
\<close>

definition is_linebreak :: "char \<Rightarrow> bool" where
  "is_linebreak c =
     (let n = (of_char c :: nat)
      in (10 \<le> n \<and> n \<le> 13) \<or> (28 \<le> n \<and> n \<le> 30) \<or> n = 133)"

fun splitlines_from :: "string \<Rightarrow> string \<Rightarrow> string list" where
  "splitlines_from cur [] = (if cur = [] then [] else [rev cur])"
| "splitlines_from cur [c] =
     (if is_linebreak c then [rev cur] else [rev (c # cur)])"
| "splitlines_from cur (c # d # cs) =
     (if c = CHR 0x0D \<and> d = CHR 0x0A then rev cur # splitlines_from [] cs
      else if is_linebreak c then rev cur # splitlines_from [] (d # cs)
      else splitlines_from (c # cur) (d # cs))"

definition splitlines :: "string \<Rightarrow> string list" where
  "splitlines s = splitlines_from [] s"

section \<open>Exceptions and values\<close>

text \<open>
  The classes of exception the program meets, all of them subclasses of \<open>Exception\<close>,
  and an exception as its class with the text \<open>str(e)\<close>.
\<close>

datatype exn_class =
    Exception
  | RequestException
  | CalledProcessError
  | OSError
  | UnicodeDecodeError
  | IndexError
  | KeyError
  | TypeError
  | AttributeError

datatype exn = Exn exn_class string

fun exn_str :: "exn \<Rightarrow> string" where
  "exn_str (Exn c m) = m"

text \<open>\<open>isinstance(e, k)\<close>, which decides whether \<open>except k\<close> handles \<open>e\<close>.\<close>

fun isinstance :: "exn \<Rightarrow> exn_class \<Rightarrow> bool" where
  "isinstance (Exn c m) k = (k = Exception \<or> c = k)"

text \<open>
  The values \<open>response.json()\<close> yields. A float is carried as its text: the program
  never computes with it.
\<close>

datatype jval =
    JNull
  | JBool bool
  | JInt int
  | JFloat string
  | JStr string
  | JList "jval list"
  | JDict "(string \<times> jval) list"

record response =
  status_code :: int
  resp_text :: string
  json :: "exn + jval"

text \<open>
  The host the program runs on: the platform, the environment, the file system, the
  processes it spawns and the network. Each library call is a function of its arguments.
\<close>

record world =
  SYSTEM_PLATFORM :: string
  pathsep :: char
  environ :: "string \<Rightarrow> string option"
  isfile :: "string \<Rightarrow> bool"
  access_X_OK :: "string \<Rightarrow> bool"
  glob_recursive :: "string \<Rightarrow> string list"
  path_join :: "string \<Rightarrow> string \<Rightarrow> string \<Rightarrow> string"
  dirname :: "string \<Rightarrow> string"
  check_output_shell :: "string \<Rightarrow> exn + string"
  check_output :: "string list \<Rightarrow> exn + string"
  requests_get :: "string \<Rightarrow> exn + response"
  BeautifulSoup :: "string \<Rightarrow> exn + unit"
  py_repr :: "jval \<Rightarrow> string"

text \<open>\<open>str(v)\<close>, as an f-string formats a value: a string is itself.\<close>

definition py_str :: "world \<Rightarrow> jval \<Rightarrow> string" where
  "py_str w v = (case v of JStr s \<Rightarrow> s | _ \<Rightarrow> py_repr w v)"

text \<open>\<open>v[0]\<close> and \<open>v.get(key, default)\<close> on a decoded JSON value.\<close>

fun index0 :: "jval \<Rightarrow> exn + jval" where
  "index0 (JList []) = Inl (Exn IndexError ''list index out of range'')"
| "index0 (JList (x # xs)) = Inr x"
| "index0 (JStr []) = Inl (Exn IndexError ''string index out of range'')"
| "index0 (JStr (c # cs)) = Inr (JStr [c])"
| "index0 (JDict kvs) = Inl (Exn KeyError ''0'')"
| "index0 v = Inl (Exn TypeError ''object is not subscriptable'')"

fun dict_get :: "jval \<Rightarrow> string \<Rightarrow> jval \<Rightarrow> exn + jval" where
  "dict_get (JDict kvs) k d = Inr (case map_of kvs k of None \<Rightarrow> d | Some v \<Rightarrow> v)"
| "dict_get v k d = Inl (Exn AttributeError ''object has no attribute get'')"

text \<open>Sequencing of two steps either of which may raise.\<close>

definition and_then :: "exn + 'a \<Rightarrow> ('a \<Rightarrow> exn + 'b) \<Rightarrow> exn + 'b" where
  "and_then r f = (case r of Inl e \<Rightarrow> Inl e | Inr x \<Rightarrow> f x)"

text \<open>The text of a natural number and of an integer, as an f-string prints them.\<close>

function str_nat :: "nat \<Rightarrow> string" where
  "str_nat n =
     (if n < 10 then [char_of (48 + n)]
      else str_nat (n div 10) @ [char_of (48 + n mod 10)])"
  by pat_completeness auto
termination
  by (relation "measure id") auto

definition str_int :: "int \<Rightarrow> string" where
  "str_int i = (if i < 0 then CHR ''-'' # str_nat (nat (- i)) else str_nat (nat i))"

definition str_bool :: "bool \<Rightarrow> string" where
  "str_bool b = (if b then ''True'' else ''False'')"

text \<open>
  A \<open>dict\<close> whose order matters is an association list in insertion order;
  \<open>d[k] = v\<close> replaces the value of a key in place and appends a new key.
\<close>

fun dict_set :: "'k \<Rightarrow> 'v \<Rightarrow> ('k \<times> 'v) list \<Rightarrow> ('k \<times> 'v) list" where
  "dict_set k v [] = [(k, v)]"
| "dict_set k v ((k', v') # kvs) =
     (if k' = k then (k, v) # kvs else (k', v') # dict_set k v kvs)"

section \<open>config/settings.py\<close>

definition RESOURCES :: "(string \<times> string \<times> string) list" where
  "RESOURCES = [(''node'', ''--version'', ''https://nodejs.org/en/'')]"

definition STANDARD_INSTALL_DIRS :: "string list" where
  "STANDARD_INSTALL_DIRS =
     [''C:'' @ bslash # ''Program Files'',
      ''C:'' @ bslash # ''Program Files (x86)'',
      ''C:'' @ bslash # ''Users'' @ bslash # ''*'' @ bslash # ''AppData'' @ bslash # ''Local'',
      ''/usr/bin'',
      ''/usr/local/bin'',
      ''/opt'']"

section \<open>main.py: locating and probing\<close>

definition environ_get :: "world \<Rightarrow> string \<Rightarrow> string \<Rightarrow> string" where
  "environ_get w k d = (case environ w k of None \<Rightarrow> d | Some v \<Rightarrow> v)"

definition log_environment_variables :: "world \<Rightarrow> (string \<times> string) list" where
  "log_environment_variables w =
     [(''PATH'', environ_get w ''PATH'' ''Not Set''),
      (''JAVA_HOME'', environ_get w ''JAVA_HOME'' ''Not Set''),
      (''PYTHON_HOME'', environ_get w ''PYTHON_HOME'' ''Not Set'')]"

definition is_executable :: "world \<Rightarrow> string \<Rightarrow> bool" where
  "is_executable w file_path =
     (if SYSTEM_PLATFORM w = ''Windows''
      then isfile w file_path \<and> endswith file_path [''.exe'', ''.cmd'', ''.bat'']
      else access_X_OK w file_path)"

definition run_command :: "world \<Rightarrow> string \<Rightarrow> exn + string list" where
  "run_command w cmd =
     (case check_output_shell w cmd of
        Inr out \<Rightarrow> Inr (splitlines (strip out))
      | Inl e \<Rightarrow> if isinstance e CalledProcessError then Inr [] else Inl e)"

definition search_in_standard_dirs :: "world \<Rightarrow> string \<Rightarrow> string list" where
  "search_in_standard_dirs w resource =
     concat (map (\<lambda>dir_pattern.
                    filter (access_X_OK w)
                      (glob_recursive w (path_join w dir_pattern ''**'' resource)))
                 STANDARD_INSTALL_DIRS)"

definition list_uncovered_path_dirs :: "world \<Rightarrow> string set \<Rightarrow> string list" where
  "list_uncovered_path_dirs w covered_dirs =
     (let path_dirs = split_on (pathsep w) (environ_get w ''PATH'' [])
      in filter (\<lambda>d. d \<noteq> [] \<and> d \<notin> covered_dirs) path_dirs)"

definition find_executable_paths :: "world \<Rightarrow> string \<Rightarrow> exn + string list" where
  "find_executable_paths w command =
     (let cmd = (if SYSTEM_PLATFORM w = ''Windows'' then ''where '' @ command
                 else ''which -a '' @ command)
      in run_command w cmd)"

text \<open>
  The functions that probe a path return, with their value, the argument vectors of the
  processes they started, in order.
\<close>

type_synonym spawned = "string list list"

definition first_line :: "string \<Rightarrow> exn + string" where
  "first_line out =
     (case splitlines (strip out) of
        [] \<Rightarrow> Inl (Exn IndexError ''list index out of range'')
      | l # ls \<Rightarrow> Inr l)"

definition get_version :: "world \<Rightarrow> string \<Rightarrow> string \<Rightarrow> (exn + string) \<times> spawned" where
  "get_version w command version_args =
     (let argv = [command] @ [version_args] in
      (case and_then (check_output w argv) first_line of
         Inr line \<Rightarrow> Inr line
       | Inl e \<Rightarrow> if isinstance e Exception then Inr (''Error: '' @ exn_str e) else Inl e,
       [argv]))"

definition get_path_details ::
    "world \<Rightarrow> string \<Rightarrow> string \<Rightarrow> (exn + bool \<times> string option) \<times> spawned" where
  "get_path_details w path version_args =
     (let executable = is_executable w path in
      if executable
      then (case get_version w path version_args of
              (Inl e, sp) \<Rightarrow> (Inl e, sp)
            | (Inr version, sp) \<Rightarrow> (Inr (executable, Some version), sp))
      else (Inr (executable, None), []))"

section \<open>main.py: the latest published version\<close>

definition release_marker :: string where
  "release_marker = ''<span class='' @ CHR 0x22 # ''release-number'' @ CHR 0x22 # ''>''"

text \<open>The body of the \<open>try\<close> block of \<open>get_latest_version\<close>.\<close>

definition fetch_latest :: "world \<Rightarrow> string \<Rightarrow> exn + jval" where
  "fetch_latest w url =
     and_then (requests_get w url) (\<lambda>response.
       if status_code response = 200 then
         if contains url ''nodejs'' then
           and_then (requests_get w ''https://nodejs.org/dist/index.json'') (\<lambda>response.
           and_then (json response) (\<lambda>decoded.
           and_then (index0 decoded) (\<lambda>response_data.
           and_then (dict_get response_data ''version'' (JStr ''Unknown version'')) (\<lambda>version.
           and_then (dict_get response_data ''date'' (JStr ''Unknown version'')) (\<lambda>date.
             Inr (JStr (py_str w version @ '' ('' @ py_str w date @ '')'')))))))
         else if contains url ''python'' then
           (let start = py_find (resp_text response) release_marker 0
                          + int (length release_marker) in
            and_then (BeautifulSoup w (resp_text response)) (\<lambda>soup.
              (let stop = py_find (resp_text response) ''</span>'' (nat start)
               in Inr (JStr (strip (py_slice (resp_text response) (nat start) stop))))))
         else if contains url ''npmjs'' then
           and_then (requests_get w ''https://registry.npmjs.org/npm/latest'') (\<lambda>response.
           and_then (json response) (\<lambda>decoded.
             dict_get decoded ''version'' (JStr ''Unknown version'')))
         else Inr (JStr ''Latest version info not found'')
       else Inr (JStr (''Failed to fetch version from '' @ url)))"

definition get_latest_version :: "world \<Rightarrow> string \<Rightarrow> exn + jval" where
  "get_latest_version w url =
     (case fetch_latest w url of
        Inr v \<Rightarrow> Inr v
      | Inl e \<Rightarrow>
          if isinstance e RequestException
          then Inr (JStr (''Error fetching data: '' @ exn_str e))
          else Inl e)"

section \<open>main.py: the results of a run\<close>

record details =
  Executable :: bool
  Version :: "string option"
  InPath :: bool

record online =
  latest_version :: jval
  url :: string

record resource_details =
  online_details :: online
  paths :: "(string \<times> details) list"

type_synonym results = "(string \<times> resource_details) list"

text \<open>The loop over the paths that the search path gave (\<open>InPath\<close> is \<open>True\<close>).\<close>

fun path_loop ::
    "world \<Rightarrow> string \<Rightarrow> string list \<Rightarrow> (string \<times> details) list
      \<Rightarrow> exn + (string \<times> details) list" where
  "path_loop w version_args [] pm = Inr pm"
| "path_loop w version_args (path # rest) pm =
     and_then (fst (get_path_details w path version_args)) (\<lambda>(executable, version).
       path_loop w version_args rest
         (dict_set path \<lparr>Executable = executable, Version = version, InPath = True\<rparr> pm))"

text \<open>
  The loop over the paths found under the standard directories (\<open>InPath\<close> is \<open>False\<close>);
  \<open>covered_dirs.update(s)\<close> with a string \<open>s\<close> adds each character of \<open>s\<close>.
\<close>

fun extra_path_loop ::
    "world \<Rightarrow> string \<Rightarrow> string list \<Rightarrow> (string \<times> details) list \<times> string set
      \<Rightarrow> exn + (string \<times> details) list \<times> string set" where
  "extra_path_loop w version_args [] st = Inr st"
| "extra_path_loop w version_args (path # rest) (pm, covered_dirs) =
     and_then (fst (get_path_details w path version_args)) (\<lambda>(executable, version).
       extra_path_loop w version_args rest
         (dict_set path \<lparr>Executable = executable, Version = version, InPath = False\<rparr> pm,
          covered_dirs \<union> (\<lambda>c. [c]) ` set (dirname w path)))"

text \<open>
  The loop over the table of resources, which is an argument here: \<open>get_resources\<close>
  reads the table \<open>RESOURCES\<close> of the settings.
\<close>

fun resources_loop ::
    "world \<Rightarrow> bool \<Rightarrow> (string \<times> string \<times> string) list \<Rightarrow> results \<times> string set
      \<Rightarrow> exn + results \<times> string set" where
  "resources_loop w search_standard_dirs [] st = Inr st"
| "resources_loop w search_standard_dirs ((resource, version_args, u) # rest)
       (resource_results, covered_dirs) =
     and_then (get_latest_version w u) (\<lambda>lv.
     and_then (find_executable_paths w resource) (\<lambda>ps.
       (let extra_paths =
              (if search_standard_dirs then search_in_standard_dirs w resource else [])
        in
     and_then (path_loop w version_args ps []) (\<lambda>pm.
     and_then (extra_path_loop w version_args extra_paths (pm, covered_dirs))
       (\<lambda>(pm', covered_dirs').
          resources_loop w search_standard_dirs rest
            (dict_set resource
               \<lparr>online_details = \<lparr>latest_version = lv, url = u\<rparr>, paths = pm'\<rparr>
               resource_results,
             covered_dirs'))))))"

definition get_resources_of ::
    "world \<Rightarrow> (string \<times> string \<times> string) list \<Rightarrow> bool \<Rightarrow> exn + results \<times> string set" where
  "get_resources_of w table search_standard_dirs =
     resources_loop w search_standard_dirs table ([], {})"

definition get_resources :: "world \<Rightarrow> bool \<Rightarrow> exn + results \<times> string set" where
  "get_resources w search_standard_dirs = get_resources_of w RESOURCES search_standard_dirs"

section \<open>main.py: counts, hierarchy and report\<close>

type_synonym path_counts = "string \<Rightarrow> int option"

definition counts_get :: "path_counts \<Rightarrow> string \<Rightarrow> int \<Rightarrow> int" where
  "counts_get pc k d = (case pc k of None \<Rightarrow> d | Some c \<Rightarrow> c)"

definition count_prefix :: "string list \<Rightarrow> nat \<Rightarrow> path_counts \<Rightarrow> path_counts" where
  "count_prefix parts i pc =
     (let sub_path = join_with bslash (take i parts)
      in pc(sub_path \<mapsto> counts_get pc sub_path 0 + 1))"

definition count_path :: "string \<Rightarrow> path_counts \<Rightarrow> path_counts" where
  "count_path path pc =
     (let parts = split_on bslash path
      in fold (count_prefix parts) [1 ..< length parts + 1] pc)"

definition build_path_counts :: "results \<Rightarrow> path_counts" where
  "build_path_counts resource_results =
     fold (\<lambda>(resource, rd) pc. fold (\<lambda>(path, d) pc. count_path path pc) (paths rd) pc)
       resource_results Map.empty"

text \<open>The nested dictionaries of the hierarchy: each key with the dictionary under it.\<close>

datatype hierarchy = Hier "(string \<times> hierarchy) list"

fun subdirs :: "hierarchy \<Rightarrow> (string \<times> hierarchy) list" where
  "subdirs (Hier kids) = kids"

text \<open>
  \<open>for part in parts: current = current.setdefault(part, {})\<close>, from the dictionary
  \<open>current\<close> on: an absent key is appended with an empty dictionary.
\<close>

fun setdefault_chain :: "string list \<Rightarrow> hierarchy \<Rightarrow> hierarchy" where
  "setdefault_chain [] h = h"
| "setdefault_chain (part # parts) (Hier kids) =
     (case map_of kids part of
        None \<Rightarrow> Hier (kids @ [(part, setdefault_chain parts (Hier []))])
      | Some sub \<Rightarrow> Hier (dict_set part (setdefault_chain parts sub) kids))"

text \<open>
  \<open>print_hierarchy\<close> returns the lines it appends to \<open>report\<close>.
\<close>

function print_hierarchy :: "hierarchy \<Rightarrow> path_counts \<Rightarrow> nat \<Rightarrow> string list" where
  "print_hierarchy (Hier kids) pc indent =
     concat (map (\<lambda>(key, subdir).
                    (let path = join_with bslash ([key] @ map fst (subdirs subdir));
                         count = counts_get pc path 0
                     in (replicate indent CHR '' '' @ key @ '' ('' @ str_int count @ '')''
                           @ [bslash])
                        # print_hierarchy subdir pc (indent + 2)))
                 (sort_key fst kids))"
  by pat_completeness auto
termination
proof (relation "measure (\<lambda>(h, pc, indent). size h)", goal_cases)
  case 1
  show ?case by simp
next
  case (2 kids pc indent x key subdir)
  then have "(key, subdir) \<in> set kids" by simp
  then have "size subdir < Suc (size_list (size_prod (\<lambda>_. 0) size) kids)"
    by (induction kids) auto
  then show ?case by simp
qed

text \<open>
  One round of the loop over the paths of a resource in \<open>generate_report\<close>: the lines
  appended for an executable path, and the hierarchy extended for a path with
  \<open>InPath\<close> \<open>False\<close>.
\<close>

definition version_str :: "string option \<Rightarrow> string" where
  "version_str v = (case v of None \<Rightarrow> ''None'' | Some s \<Rightarrow> s)"

definition path_step ::
    "string \<times> details \<Rightarrow> string list \<times> hierarchy \<Rightarrow> string list \<times> hierarchy" where
  "path_step = (\<lambda>(path, d) (report, hier).
     (if Executable d = True
      then report @
             [tab # ''Path: '' @ path,
              [tab, tab, tab] @ ''Executable: '' @ str_bool (Executable d),
              [tab, tab, tab] @ ''Version: '' @ version_str (Version d),
              [tab, tab, tab] @ ''In-Path Variable: '' @ str_bool (InPath d)]
      else report,
      if InPath d = False then setdefault_chain (split_on bslash path) hier else hier))"

text \<open>The lines appended for one resource.\<close>

definition resource_section ::
    "world \<Rightarrow> path_counts \<Rightarrow> string \<times> resource_details \<Rightarrow> string list" where
  "resource_section w pc = (\<lambda>(resource, rd).
     (let (report, hier) = fold path_step (paths rd) ([], Hier [])
      in [resource @ '': '' @ (if length (paths rd) = 0 then ''No paths found'' else []),
          tab # ''Latest Available Version: ''
            @ py_str w (latest_version (online_details rd))
            @ ''  -  '' @ url (online_details rd)]
         @ report @ print_hierarchy hier pc 2 @ [[]]))"

definition generate_report :: "world \<Rightarrow> results \<Rightarrow> string set \<Rightarrow> string list" where
  "generate_report w resource_results covered_dirs =
     (let pc = build_path_counts resource_results;
          uncovered_dirs = list_uncovered_path_dirs w covered_dirs;
          env_vars = log_environment_variables w
      in concat (map (resource_section w pc) resource_results)
         @ (if uncovered_dirs \<noteq> []
            then ''Uncovered PATH Directories:'' # map (\<lambda>d. ''  '' @ d) uncovered_dirs
            else [])
         @ [[]]
         @ [''Environment Variables:'']
         @ map (\<lambda>(var, val). ''  '' @ var @ '': '' @ val) env_vars)"

section \<open>Notions the properties are stated with\<close>

text \<open>The chain of keys \<open>ks\<close> leads from the root of a hierarchy down to a node.\<close>

fun has_chain :: "hierarchy \<Rightarrow> string list \<Rightarrow> bool" where
  "has_chain h [] = True"
| "has_chain (Hier kids) (k # ks) =
     (case map_of kids k of None \<Rightarrow> False | Some sub \<Rightarrow> has_chain sub ks)"

text \<open>The hierarchy that \<open>generate_report\<close> has built after the paths of one resource.\<close>

definition hierarchy_of :: "(string \<times> details) list \<Rightarrow> hierarchy" where
  "hierarchy_of pm = snd (fold path_step pm ([], Hier []))"

text \<open>
  All discovered paths, resource after resource, and those of them whose parts between
  backslashes begin with the parts of \<open>s\<close>.
\<close>

definition discovered_paths :: "results \<Rightarrow> string list" where
  "discovered_paths rr = concat (map (\<lambda>(resource, rd). map fst (paths rd)) rr)"

definition paths_under :: "string \<Rightarrow> results \<Rightarrow> string list" where
  "paths_under s rr =
     filter (\<lambda>p. prefix (split_on bslash s) (split_on bslash p)) (discovered_paths rr)"

text \<open>The elements of a list in the order of their first occurrence.\<close>

fun firsts :: "'a list \<Rightarrow> 'a list" where
  "firsts [] = []"
| "firsts (x # xs) = x # filter (\<lambda>y. y \<noteq> x) (firsts xs)"

text \<open>
  The entry that \<open>get_resources\<close> records for a path, and the mapping it builds for a
  resource: the paths of the search path first, then those of the standard directories.
\<close>

definition entry_for :: "world \<Rightarrow> string \<Rightarrow> bool \<Rightarrow> string \<Rightarrow> details" where
  "entry_for w version_args in_path path =
     \<lparr>Executable = is_executable w path,
      Version = (if is_executable w path
                 then (case fst (get_version w path version_args) of
                         Inl e \<Rightarrow> None
                       | Inr line \<Rightarrow> Some line)
                 else None),
      InPath = in_path\<rparr>"

definition extra_paths_of :: "world \<Rightarrow> bool \<Rightarrow> string \<Rightarrow> string list" where
  "extra_paths_of w search_standard_dirs resource =
     (if search_standard_dirs then search_in_standard_dirs w resource else [])"

definition path_mapping ::
    "world \<Rightarrow> bool \<Rightarrow> string \<Rightarrow> string \<Rightarrow> string list \<Rightarrow> (string \<times> details) list" where
  "path_mapping w search_standard_dirs resource version_args ps =
     fold (\<lambda>p. dict_set p (entry_for w version_args False p))
       (extra_paths_of w search_standard_dirs resource)
       (fold (\<lambda>p. dict_set p (entry_for w version_args True p)) ps [])"

section \<open>Example hosts\<close>

definition node_index :: jval where
  "node_index =
     JList [JDict [(''version'', JStr ''v22.0.0''), (''date'', JStr ''2024-04-24'')]]"

definition example_get :: "jval \<Rightarrow> string \<Rightarrow> exn + response" where
  "example_get index u =
     (if u = ''https://nodejs.org/en/''
      then Inr \<lparr>status_code = 200, resp_text = [], json = Inl (Exn RequestException ''no JSON'')\<rparr>
      else if u = ''https://nodejs.org/dist/index.json''
      then Inr \<lparr>status_code = 200, resp_text = [], json = Inr index\<rparr>
      else Inl (Exn RequestException ''connection refused''))"

text \<open>
  A POSIX host: \<open>which -a node\<close> prints three paths, of which the second is not
  executable and the third fails when asked for its version; the third is also found
  under a standard directory.
\<close>

definition example_host :: world where
  "example_host =
     \<lparr>SYSTEM_PLATFORM = ''Linux'',
      pathsep = CHR '':'',
      environ = [''PATH'' \<mapsto> '':/usr/bin::/opt/bin:''],
      isfile = (\<lambda>p. True),
      access_X_OK = (\<lambda>p. p = ''/usr/bin/node'' \<or> p = ''/opt/bin/node''),
      glob_recursive = (\<lambda>pat. if pat = ''/opt/**/node'' then [''/opt/bin/node''] else []),
      path_join = (\<lambda>a b c. a @ ''/'' @ b @ ''/'' @ c),
      dirname = (\<lambda>p. if p = ''/opt/bin/node'' then ''/opt/bin'' else []),
      check_output_shell =
        (\<lambda>cmd. if cmd = ''which -a node''
               then Inr (''/usr/bin/node'' @ [CHR 0x0A] @ ''/usr/local/bin/node''
                          @ [CHR 0x0A] @ ''/opt/bin/node'' @ [CHR 0x0A])
               else Inl (Exn CalledProcessError ''exit status 1'')),
      check_output =
        (\<lambda>argv. if argv = [''/usr/bin/node'', ''--version'']
                then Inr (''v18.16.0'' @ [CHR 0x0A])
                else Inl (Exn CalledProcessError ''exit status 2'')),
      requests_get = example_get node_index,
      BeautifulSoup = (\<lambda>t. Inr ()),
      py_repr = (\<lambda>v. ''?'')\<rparr>"

text \<open>The same host when the release index of Node.js is an empty list.\<close>

definition empty_index_host :: world where
  "empty_index_host = example_host\<lparr>requests_get := example_get (JList [])\<rparr>"

text \<open>Two resources for which the same path was discovered.\<close>

definition shared_path_results :: results where
  "shared_path_results =
     [(''node'',
       \<lparr>online_details = \<lparr>latest_version = JStr ''v22.0.0'', url = ''https://nodejs.org/en/''\<rparr>,
        paths = [(''x'', \<lparr>Executable = True, Version = Some ''v18.16.0'', InPath = True\<rparr>)]\<rparr>),
      (''node.exe'',
       \<lparr>online_details = \<lparr>latest_version = JStr ''v22.0.0'', url = ''https://nodejs.org/en/''\<rparr>,
        paths = [(''x'', \<lparr>Executable = True, Version = Some ''v18.16.0'', InPath = True\<rparr>)]\<rparr>)]"

text \<open>A resource with one path, found under a standard directory.\<close>

definition found_details :: details where
  "found_details = \<lparr>Executable = True, Version = Some ''v18.16.0'', InPath = False\<rparr>"

definition one_path_results :: "string \<Rightarrow> results" where
  "one_path_results p =
     [(''node'',
       \<lparr>online_details = \<lparr>latest_version = JStr ''v22.0.0'', url = ''https://nodejs.org/en/''\<rparr>,
        paths = [(p, found_details)]\<rparr>)]"

text \<open>What the run on the example host yields, with and without the standard directories.\<close>

definition example_paths :: "bool \<Rightarrow> (string \<times> details) list" where
  "example_paths search_standard_dirs =
     [(''/usr/bin/node'',
       \<lparr>Executable = True, Version = Some ''v18.16.0'', InPath = True\<rparr>),
      (''/usr/local/bin/node'',
       \<lparr>Executable = False, Version = None, InPath = True\<rparr>),
      (''/opt/bin/node'',
       \<lparr>Executable = True, Version = Some ''Error: exit status 2'',
        InPath = (\<not> search_standard_dirs)\<rparr>)]"

definition example_results :: "bool \<Rightarrow> results" where
  "example_results search_standard_dirs =
     [(''node'',
       \<lparr>online_details =
          \<lparr>latest_version = JStr ''v22.0.0 (2024-04-24)'', url = ''https://nodejs.org/en/''\<rparr>,
        paths = example_paths search_standard_dirs\<rparr>)]"

text \<open>A table with a resource that the example host does not have.\<close>

definition git_table :: "(string \<times> string \<times> string) list" where
  "git_table = [(''git'', ''--version'', ''https://git-scm.com/'')]"

definition git_results :: results where
  "git_results =
     [(''git'',
       \<lparr>online_details =
          \<lparr>latest_version = JStr ''Error fetching data: connection refused'',
           url = ''https://git-scm.com/''\<rparr>,
        paths = []\<rparr>)]"

text \<open>A path of two segments, as a Windows host gives them.\<close>

definition two_level_path :: string where
  "two_level_path = ''C:'' @ bslash # ''node''"

section \<open>Splitting and joining\<close>

lemma split_on_not_Nil: "split_on sep s \<noteq> []"
  by (induction s) (auto split: list.splits)

lemma join_split_on: "join_with sep (split_on sep s) = s"
proof (induction s)
  case Nil
  show ?case by simp
next
  case (Cons c cs)
  obtain x xs where r: "split_on sep cs = x # xs"
    using split_on_not_Nil [of sep cs] by (cases "split_on sep cs") auto
  with Cons show ?case by (cases xs) auto
qed

lemma split_on_sep_free: "p \<in> set (split_on sep s) \<Longrightarrow> sep \<notin> set p"
proof (induction s arbitrary: p)
  case Nil
  then show ?case by simp
next
  case (Cons c cs)
  obtain x xs where r: "split_on sep cs = x # xs"
    using split_on_not_Nil [of sep cs] by (cases "split_on sep cs") auto
  with Cons show ?case by (auto split: if_splits)
qed

lemma split_on_sep_free_word: "sep \<notin> set p \<Longrightarrow> split_on sep p = [p]"
  by (induction p) auto

lemma split_on_append_sep:
  "sep \<notin> set p \<Longrightarrow> split_on sep (p @ sep # rest) = p # split_on sep rest"
  by (induction p) auto

lemma split_join_with:
  "parts \<noteq> [] \<Longrightarrow> \<forall>p \<in> set parts. sep \<notin> set p \<Longrightarrow>
     split_on sep (join_with sep parts) = parts"
proof (induction sep parts rule: join_with.induct)
  case (1 sep)
  then show ?case by simp
next
  case (2 sep p)
  then show ?case by (simp add: split_on_sep_free_word)
next
  case (3 sep p q ps)
  then show ?case by (simp add: split_on_append_sep)
qed

section \<open>The loops of \<open>get_resources\<close>\<close>

lemma isinstance_Exception: "isinstance e Exception"
  by (cases e) simp

lemma get_version_value:
  "get_version w c a =
     (Inr (case and_then (check_output w [c, a]) first_line of
             Inl e \<Rightarrow> ''Error: '' @ exn_str e
           | Inr line \<Rightarrow> line),
      [[c, a]])"
  by (simp add: get_version_def isinstance_Exception split: sum.splits)

lemma get_path_details_value:
  "fst (get_path_details w p a) =
     Inr (Executable (entry_for w a ip p), Version (entry_for w a ip p))"
  by (simp add: get_path_details_def entry_for_def get_version_value)

lemma path_loop_fold:
  "path_loop w a ps pm = Inr (fold (\<lambda>p. dict_set p (entry_for w a True p)) ps pm)"
proof (induction ps arbitrary: pm)
  case Nil
  show ?case by simp
next
  case (Cons p ps)
  have e: "\<lparr>Executable = Executable (entry_for w a True p),
            Version = Version (entry_for w a True p), InPath = True\<rparr> = entry_for w a True p"
    by (simp add: entry_for_def)
  show ?case
    by (simp add: and_then_def get_path_details_value [where ip = True] Cons e)
qed

lemma extra_path_loop_fold:
  "extra_path_loop w a ps (pm, cov) =
     Inr (fold (\<lambda>p. dict_set p (entry_for w a False p)) ps pm,
          cov \<union> (\<Union>p \<in> set ps. (\<lambda>c. [c]) ` set (dirname w p)))"
proof (induction ps arbitrary: pm cov)
  case Nil
  show ?case by simp
next
  case (Cons p ps)
  have e: "\<lparr>Executable = Executable (entry_for w a False p),
            Version = Version (entry_for w a False p), InPath = False\<rparr> = entry_for w a False p"
    by (simp add: entry_for_def)
  show ?case
    by (simp add: and_then_def get_path_details_value [where ip = False] Cons e Un_assoc)
qed

lemma resources_loop_step:
  "resources_loop w s ((resource, a, u) # rest) (rr, cov) =
     and_then (get_latest_version w u) (\<lambda>lv.
     and_then (find_executable_paths w resource) (\<lambda>ps.
       resources_loop w s rest
         (dict_set resource
            \<lparr>online_details = \<lparr>latest_version = lv, url = u\<rparr>,
             paths = path_mapping w s resource a ps\<rparr> rr,
          cov \<union> (\<Union>p \<in> set (extra_paths_of w s resource). (\<lambda>c. [c]) ` set (dirname w p)))))"
  by (simp add: and_then_def path_loop_fold extra_path_loop_fold path_mapping_def
        extra_paths_of_def Let_def split: sum.splits)

lemma set_dict_set: "set (dict_set k v kvs) \<subseteq> insert (k, v) (set kvs)"
  by (induction kvs) (auto split: if_splits)

lemma map_fst_dict_set:
  "map fst (dict_set k v kvs) =
     (if k \<in> fst ` set kvs then map fst kvs else map fst kvs @ [k])"
  by (induction kvs) (force simp: image_iff)+

lemma keys_dict_set: "fst ` set (dict_set k v kvs) = insert k (fst ` set kvs)"
proof -
  have "set (map fst (dict_set k v kvs)) = insert k (fst ` set kvs)"
    unfolding map_fst_dict_set by auto
  then show ?thesis by simp
qed

lemma map_of_dict_set: "map_of (dict_set k v kvs) = (map_of kvs)(k \<mapsto> v)"
  by (induction kvs) auto

lemma distinct_dict_set:
  "distinct (map fst kvs) \<Longrightarrow> distinct (map fst (dict_set k v kvs))"
  by (induction kvs) (auto simp: keys_dict_set)

lemma resources_loop_entries:
  "resources_loop w s table (rr0, cov0) = Inr (rr, cov) \<Longrightarrow> (resource, rd) \<in> set rr \<Longrightarrow>
     (resource, rd) \<in> set rr0 \<or>
     (\<exists>a u lv ps. (resource, a, u) \<in> set table \<and> get_latest_version w u = Inr lv
        \<and> find_executable_paths w resource = Inr ps
        \<and> rd = \<lparr>online_details = \<lparr>latest_version = lv, url = u\<rparr>,
                 paths = path_mapping w s resource a ps\<rparr>)"
proof (induction table arbitrary: rr0 cov0)
  case Nil
  then show ?case by simp
next
  case (Cons row table)
  obtain r a u where row: "row = (r, a, u)" by (cases row) auto
  from Cons.prems(1) obtain lv ps where
    lv: "get_latest_version w u = Inr lv" and ps: "find_executable_paths w r = Inr ps"
    and rest: "resources_loop w s table
         (dict_set r \<lparr>online_details = \<lparr>latest_version = lv, url = u\<rparr>,
                      paths = path_mapping w s r a ps\<rparr> rr0,
          cov0 \<union> (\<Union>p \<in> set (extra_paths_of w s r). (\<lambda>c. [c]) ` set (dirname w p)))
         = Inr (rr, cov)"
    unfolding row resources_loop_step by (auto simp: and_then_def split: sum.splits)
  from Cons.IH [OF rest Cons.prems(2)] show ?case
  proof
    assume "(resource, rd) \<in> set (dict_set r \<lparr>online_details = \<lparr>latest_version = lv, url = u\<rparr>,
                      paths = path_mapping w s r a ps\<rparr> rr0)"
    with set_dict_set have "(resource, rd) = (r, \<lparr>online_details = \<lparr>latest_version = lv, url = u\<rparr>,
                      paths = path_mapping w s r a ps\<rparr>) \<or> (resource, rd) \<in> set rr0"
      by fastforce
    then show ?thesis using lv ps row by auto
  next
    assume "\<exists>a u lv ps. (resource, a, u) \<in> set table \<and> get_latest_version w u = Inr lv
        \<and> find_executable_paths w resource = Inr ps
        \<and> rd = \<lparr>online_details = \<lparr>latest_version = lv, url = u\<rparr>,
                 paths = path_mapping w s resource a ps\<rparr>"
    then show ?thesis by auto
  qed
qed

lemma resources_loop_total:
  "\<forall>(resource, a, u) \<in> set table.
      (\<exists>lv. get_latest_version w u = Inr lv) \<and> (\<exists>ps. find_executable_paths w resource = Inr ps)
   \<Longrightarrow> \<exists>rr cov. resources_loop w s table (rr0, cov0) = Inr (rr, cov)
         \<and> fst ` set rr = fst ` set rr0 \<union> fst ` set table"
proof (induction table arbitrary: rr0 cov0)
  case Nil
  show ?case by simp
next
  case (Cons row table)
  obtain r a u where row: "row = (r, a, u)" by (cases row) auto
  from Cons.prems row obtain lv ps where
    lv: "get_latest_version w u = Inr lv" and ps: "find_executable_paths w r = Inr ps"
    by auto
  from Cons.prems have "\<forall>(resource, a, u) \<in> set table.
      (\<exists>lv. get_latest_version w u = Inr lv) \<and> (\<exists>ps. find_executable_paths w resource = Inr ps)"
    by simp
  from Cons.IH [OF this] obtain rr cov where
    "resources_loop w s table
         (dict_set r \<lparr>online_details = \<lparr>latest_version = lv, url = u\<rparr>,
                      paths = path_mapping w s r a ps\<rparr> rr0,
          cov0 \<union> (\<Union>p \<in> set (extra_paths_of w s r). (\<lambda>c. [c]) ` set (dirname w p)))
         = Inr (rr, cov)"
    and "fst ` set rr = fst ` set (dict_set r \<lparr>online_details = \<lparr>latest_version = lv, url = u\<rparr>,
                      paths = path_mapping w s r a ps\<rparr> rr0) \<union> fst ` set table"
    by blast
  then show ?case
    unfolding row resources_loop_step by (simp add: lv ps and_then_def keys_dict_set)
qed

section \<open>Uncovered directories of the search path\<close>

lemma example_host_uncovered:
  "list_uncovered_path_dirs example_host {} = [''/usr/bin'', ''/opt/bin'']"
  by (simp add: list_uncovered_path_dirs_def example_host_def environ_get_def)

lemma example_host_entries:
  "split_on (pathsep example_host) (environ_get example_host ''PATH'' [])
     = [[], ''/usr/bin'', [], ''/opt/bin'', []]"
  by (simp add: example_host_def environ_get_def)

text \<open>
  C6, as stated: the result is the list of the entries of \<open>PATH\<close> without the covered
  ones. It fails on a \<open>PATH\<close> with empty entries: with nothing covered, the entries of
  \<open>:/usr/bin::/opt/bin:\<close> are five, and two are returned.
\<close>

theorem uncovered_is_not_all_entries:
  "split_on (pathsep example_host) (environ_get example_host ''PATH'' [])
     = [[], ''/usr/bin'', [], ''/opt/bin'', []]
   \<and> list_uncovered_path_dirs example_host {} = [''/usr/bin'', ''/opt/bin'']"
  using example_host_uncovered example_host_entries by simp

text \<open>
  C6, amended: \<open>list_uncovered_path_dirs\<close> returns the entries of \<open>PATH\<close> that are not
  empty and not in the covered set, in the order of \<open>PATH\<close>; with an empty covered set
  it returns every entry that is not empty.
\<close>

theorem uncovered_is_nonempty_entries_minus_covered:
  "list_uncovered_path_dirs w covered_dirs
     = filter (\<lambda>d. d \<notin> covered_dirs)
         (filter (\<lambda>d. d \<noteq> []) (split_on (pathsep w) (environ_get w ''PATH'' [])))
   \<and> list_uncovered_path_dirs w {}
     = filter (\<lambda>d. d \<noteq> []) (split_on (pathsep w) (environ_get w ''PATH'' []))"
  by (simp add: list_uncovered_path_dirs_def conj_commute)

theorem uncovered_is_nonempty_entries_minus_covered_witness:
  "list_uncovered_path_dirs example_host {''/opt/bin''} = [''/usr/bin'']
   \<and> list_uncovered_path_dirs example_host {} = [''/usr/bin'', ''/opt/bin'']"
  using uncovered_is_nonempty_entries_minus_covered [of example_host "{''/opt/bin''}"]
    example_host_entries
  by simp

text \<open>
  C10: no entry of the list of uncovered directories is the empty string, whatever the
  covered set and the value of \<open>PATH\<close>.
\<close>

theorem uncovered_dirs_are_nonempty:
  "d \<in> set (list_uncovered_path_dirs w covered_dirs) \<Longrightarrow> d \<noteq> []"
  by (simp add: list_uncovered_path_dirs_def)

theorem uncovered_dirs_are_nonempty_witness:
  "''/usr/bin'' \<in> set (list_uncovered_path_dirs example_host {}) \<and> ''/usr/bin'' \<noteq> []
   \<and> [] \<in> set (split_on (pathsep example_host) (environ_get example_host ''PATH'' []))
   \<and> [] \<notin> set (list_uncovered_path_dirs example_host {})"
  using uncovered_dirs_are_nonempty [of "''/usr/bin''" example_host "{}"]
    uncovered_dirs_are_nonempty [of "[]" example_host "{}"]
    example_host_uncovered example_host_entries
  by auto

section \<open>The results of \<open>get_resources\<close>\<close>

lemma fold_dict_set_entries:
  "(p, d) \<in> set (fold (\<lambda>p. dict_set p (f p)) ps pm) \<Longrightarrow>
     (p, d) \<in> set pm \<or> (p \<in> set ps \<and> d = f p)"
proof (induction ps arbitrary: pm)
  case Nil
  then show ?case by simp
next
  case (Cons q ps)
  from Cons.IH [of "dict_set q (f q) pm"] Cons.prems
  have "(p, d) \<in> set (dict_set q (f q) pm) \<or> (p \<in> set ps \<and> d = f p)" by simp
  with set_dict_set [of q "f q" pm] show ?case by auto
qed

lemma fold_dict_set_keys:
  "fst ` set (fold (\<lambda>p. dict_set p (f p)) ps pm) = fst ` set pm \<union> set ps"
  by (induction ps arbitrary: pm) (auto simp: keys_dict_set)

lemma path_mapping_entries:
  "(p, d) \<in> set (path_mapping w s r a ps) \<Longrightarrow> \<exists>ip. d = entry_for w a ip p"
proof -
  assume m: "(p, d) \<in> set (path_mapping w s r a ps)"
  from fold_dict_set_entries [OF m [unfolded path_mapping_def]]
  have "(p, d) \<in> set (fold (\<lambda>p. dict_set p (entry_for w a True p)) ps [])
          \<or> d = entry_for w a False p"
    by blast
  then show ?thesis
  proof
    assume "(p, d) \<in> set (fold (\<lambda>p. dict_set p (entry_for w a True p)) ps [])"
    from fold_dict_set_entries [OF this] show ?thesis by auto
  next
    assume "d = entry_for w a False p"
    then show ?thesis by blast
  qed
qed

lemma path_mapping_keys:
  "fst ` set (path_mapping w s r a ps) = set ps \<union> set (extra_paths_of w s r)"
  unfolding path_mapping_def by (simp add: fold_dict_set_keys)

lemma get_resources_of_entries:
  assumes "get_resources_of w table s = Inr (rr, cov)" and "(resource, rd) \<in> set rr"
  shows "\<exists>a u lv ps. (resource, a, u) \<in> set table \<and> get_latest_version w u = Inr lv
        \<and> find_executable_paths w resource = Inr ps
        \<and> rd = \<lparr>online_details = \<lparr>latest_version = lv, url = u\<rparr>,
                 paths = path_mapping w s resource a ps\<rparr>"
  using resources_loop_entries [of w s table "[]" "{}" rr cov resource rd] assms
  unfolding get_resources_of_def by simp

lemma example_run: "get_resources_of example_host RESOURCES False = Inr (example_results False, {})"
  by code_simp

lemma example_run_standard:
  "get_resources_of example_host RESOURCES True
     = Inr (example_results True, set [''/'', ''o'', ''p'', ''t'', ''b'', ''i'', ''n''])"
  by code_simp

lemma git_run: "get_resources_of example_host git_table True = Inr (git_results, {})"
  by code_simp

text \<open>
  C5: for a path whose executability check fails, \<open>get_path_details\<close> starts no process
  and returns \<open>(False, None)\<close>; the entry of such a path in the results of
  \<open>get_resources\<close> has \<open>Executable\<close> \<open>False\<close> and \<open>Version\<close> \<open>None\<close>.
\<close>

theorem non_executable_path_has_no_version:
  assumes "\<not> is_executable w path"
  shows "get_path_details w path version_args = (Inr (False, None), [])
    \<and> (\<forall>rr cov resource rd d.
          get_resources_of w table s = Inr (rr, cov) \<longrightarrow> (resource, rd) \<in> set rr \<longrightarrow>
          (path, d) \<in> set (paths rd) \<longrightarrow> Executable d = False \<and> Version d = None)"
proof (intro conjI allI impI)
  show "get_path_details w path version_args = (Inr (False, None), [])"
    using assms by (simp add: get_path_details_def)
next
  fix rr cov resource rd d
  assume run: "get_resources_of w table s = Inr (rr, cov)"
    and rd: "(resource, rd) \<in> set rr" and d: "(path, d) \<in> set (paths rd)"
  from get_resources_of_entries [OF run rd] obtain a ps where
    "paths rd = path_mapping w s resource a ps" by auto
  with d path_mapping_entries obtain ip where "d = entry_for w a ip path" by metis
  with assms show "Executable d = False" and "Version d = None"
    by (simp_all add: entry_for_def)
qed

theorem non_executable_path_has_no_version_witness:
  "\<not> is_executable example_host ''/usr/local/bin/node''
   \<and> get_path_details example_host ''/usr/local/bin/node'' ''--version'' = (Inr (False, None), [])
   \<and> get_resources_of example_host RESOURCES False = Inr (example_results False, {})
   \<and> (''/usr/local/bin/node'', \<lparr>Executable = False, Version = None, InPath = True\<rparr>)
        \<in> set (paths (snd (hd (example_results False))))"
proof -
  have n: "\<not> is_executable example_host ''/usr/local/bin/node''"
    by (simp add: is_executable_def example_host_def)
  have m: "(''/usr/local/bin/node'', \<lparr>Executable = False, Version = None, InPath = True\<rparr>)
        \<in> set (paths (snd (hd (example_results False))))"
    by (simp add: example_results_def example_paths_def)
  from non_executable_path_has_no_version [OF n, of "''--version''" RESOURCES False] n m example_run
  show ?thesis by simp
qed

text \<open>
  C7: \<open>get_version\<close> always returns a string: a failure of the process, or an output
  with no first line, gives the text \<open>Error: ...\<close> of the exception. So when the lookups
  of the latest version and of the search path return for every resource,
  \<open>get_resources\<close> returns, with an entry for every resource of the table and, in it,
  for every path found.
\<close>

theorem version_probe_failure_does_not_stop_the_run:
  "(\<exists>line. fst (get_version w command version_args) = Inr line)
   \<and> (\<forall>e. check_output w [command, version_args] = Inl e \<longrightarrow>
          fst (get_version w command version_args) = Inr (''Error: '' @ exn_str e))
   \<and> (\<forall>out. check_output w [command, version_args] = Inr out \<longrightarrow>
          splitlines (strip out) = [] \<longrightarrow>
          fst (get_version w command version_args) = Inr ''Error: list index out of range'')
   \<and> ((\<forall>(resource, a, u) \<in> set table.
          (\<exists>lv. get_latest_version w u = Inr lv)
          \<and> (\<exists>ps. find_executable_paths w resource = Inr ps)) \<longrightarrow>
       (\<exists>rr cov. get_resources_of w table s = Inr (rr, cov)
          \<and> fst ` set rr = fst ` set table
          \<and> (\<forall>(resource, rd) \<in> set rr. \<forall>ps. find_executable_paths w resource = Inr ps \<longrightarrow>
                fst ` set (paths rd) = set ps \<union> set (extra_paths_of w s resource))))"
proof (intro conjI allI impI)
  show "\<exists>line. fst (get_version w command version_args) = Inr line"
    by (simp add: get_version_value)
next
  fix e assume "check_output w [command, version_args] = Inl e"
  then show "fst (get_version w command version_args) = Inr (''Error: '' @ exn_str e)"
    by (simp add: get_version_value and_then_def)
next
  fix out assume "check_output w [command, version_args] = Inr out" "splitlines (strip out) = []"
  then show "fst (get_version w command version_args) = Inr ''Error: list index out of range''"
    by (simp add: get_version_value and_then_def first_line_def)
next
  assume ok: "\<forall>(resource, a, u) \<in> set table.
          (\<exists>lv. get_latest_version w u = Inr lv)
          \<and> (\<exists>ps. find_executable_paths w resource = Inr ps)"
  from resources_loop_total [OF ok, of s "[]" "{}"] obtain rr cov where
    run: "get_resources_of w table s = Inr (rr, cov)" and keys: "fst ` set rr = fst ` set table"
    unfolding get_resources_of_def by auto
  have "fst ` set (paths rd) = set ps \<union> set (extra_paths_of w s resource)"
    if "(resource, rd) \<in> set rr" "find_executable_paths w resource = Inr ps" for resource rd ps
  proof -
    from get_resources_of_entries [OF run that(1)] that(2) obtain a where
      "paths rd = path_mapping w s resource a ps" by auto
    then show ?thesis by (simp add: path_mapping_keys)
  qed
  with run keys show "\<exists>rr cov. get_resources_of w table s = Inr (rr, cov)
          \<and> fst ` set rr = fst ` set table
          \<and> (\<forall>(resource, rd) \<in> set rr. \<forall>ps. find_executable_paths w resource = Inr ps \<longrightarrow>
                fst ` set (paths rd) = set ps \<union> set (extra_paths_of w s resource))"
    by blast
qed

lemma example_probe_fails:
  "check_output example_host [''/opt/bin/node'', ''--version'']
     = Inl (Exn CalledProcessError ''exit status 2'')"
  by (simp add: example_host_def)

lemma example_lookups:
  "\<forall>(resource, a, u) \<in> set RESOURCES.
      (\<exists>lv. get_latest_version example_host u = Inr lv)
      \<and> (\<exists>ps. find_executable_paths example_host resource = Inr ps)"
proof -
  have "get_latest_version example_host ''https://nodejs.org/en/'' = Inr (JStr ''v22.0.0 (2024-04-24)'')"
    by code_simp
  moreover have "find_executable_paths example_host ''node''
      = Inr [''/usr/bin/node'', ''/usr/local/bin/node'', ''/opt/bin/node'']"
    by code_simp
  ultimately show ?thesis by (simp add: RESOURCES_def)
qed

theorem version_probe_failure_does_not_stop_the_run_witness:
  "check_output example_host [''/opt/bin/node'', ''--version'']
     = Inl (Exn CalledProcessError ''exit status 2'')
   \<and> fst (get_version example_host ''/opt/bin/node'' ''--version'') = Inr ''Error: exit status 2''
   \<and> get_resources_of example_host RESOURCES False = Inr (example_results False, {})
   \<and> fst ` set (paths (snd (hd (example_results False))))
       = {''/usr/bin/node'', ''/usr/local/bin/node'', ''/opt/bin/node''}"
proof -
  note t = version_probe_failure_does_not_stop_the_run
             [of example_host "''/opt/bin/node''" "''--version''" RESOURCES False]
  from t example_probe_fails
  have "fst (get_version example_host ''/opt/bin/node'' ''--version'') = Inr ''Error: exit status 2''"
    by simp
  moreover have "fst ` set (paths (snd (hd (example_results False))))
       = {''/usr/bin/node'', ''/usr/local/bin/node'', ''/opt/bin/node''}"
    by (simp add: example_results_def example_paths_def)
  ultimately show ?thesis using example_probe_fails example_run by simp
qed

section \<open>The latest published version\<close>

text \<open>
  C1 says that \<open>get_latest_version\<close> never raises. Its handler takes
  \<open>requests.RequestException\<close> only: when the release index of Node.js decodes to an
  empty list, the \<open>IndexError\<close> of \<open>response.json()[0]\<close> leaves the function, and
  \<open>get_resources\<close> with it.
\<close>

theorem empty_release_index_raises:
  "get_latest_version empty_index_host ''https://nodejs.org/en/''
     = Inl (Exn IndexError ''list index out of range'')
   \<and> get_resources empty_index_host False = Inl (Exn IndexError ''list index out of range'')"
  by code_simp

section \<open>The report\<close>

text \<open>
  C4 says that each node is printed with the count of its path from the root. The key
  looked up is the node's name joined with the names of its children: for the one path
  \<open>C:\node\<close> the node \<open>node\<close> is printed with 0, while the count of \<open>C:\node\<close> is 1.
\<close>

theorem child_keys_in_count_lookup:
  "print_hierarchy (hierarchy_of (paths (snd (hd (one_path_results two_level_path)))))
       (build_path_counts (one_path_results two_level_path)) 2
     = [''  C: (1)'' @ [bslash], ''    node (0)'' @ [bslash]]
   \<and> build_path_counts (one_path_results two_level_path) two_level_path = Some 1"
  by code_simp

lemma not_suffix_no_paths: "\<not> suffix ''No paths found'' (resource @ '': '')"
proof
  assume "suffix ''No paths found'' (resource @ '': '')"
  then obtain zs where "resource @ '': '' = zs @ ''No paths found''"
    by (auto simp: suffix_def)
  then have "last (resource @ '': '') = last (zs @ ''No paths found'')" by simp
  then show False by simp
qed

lemma hd_resource_section:
  "hd (resource_section w pc (resource, rd))
     = resource @ '': '' @ (if length (paths rd) = 0 then ''No paths found'' else [])"
  by (simp add: resource_section_def split: prod.splits)

lemma section_in_report:
  assumes "(resource, rd) \<in> set rr"
  shows "\<exists>before after. generate_report w rr cov
           = before @ resource_section w (build_path_counts rr) (resource, rd) @ after"
proof -
  from assms obtain xs ys where rr: "rr = xs @ (resource, rd) # ys"
    by (auto simp: in_set_conv_decomp)
  have "concat (map (resource_section w (build_path_counts rr)) rr)
      = concat (map (resource_section w (build_path_counts rr)) xs)
        @ resource_section w (build_path_counts rr) (resource, rd)
        @ concat (map (resource_section w (build_path_counts rr)) ys)"
    by (subst (2) rr) simp
  then show ?thesis
    unfolding generate_report_def Let_def by (metis append.assoc)
qed

text \<open>
  C8: when the search path and the standard directories give no path for a resource, its
  mapping of paths in the results is empty, and its lines are part of the report; the
  first line of a resource with an empty mapping is its name with \<open>: No paths found\<close>,
  and that of a resource with a path is its name with \<open>: \<close>, which does not end in
  \<open>No paths found\<close>.
\<close>

theorem no_paths_found_line:
  "(get_resources_of w table s = Inr (rr, cov) \<longrightarrow> (resource, rd) \<in> set rr \<longrightarrow>
      find_executable_paths w resource = Inr [] \<longrightarrow> extra_paths_of w s resource = [] \<longrightarrow>
      paths rd = []
      \<and> (\<exists>before after. generate_report w rr cov
            = before @ resource_section w (build_path_counts rr) (resource, rd) @ after))
   \<and> (paths rd = [] \<longrightarrow>
        hd (resource_section w pc (resource, rd)) = resource @ '': No paths found'')
   \<and> (paths rd \<noteq> [] \<longrightarrow>
        hd (resource_section w pc (resource, rd)) = resource @ '': ''
        \<and> \<not> suffix ''No paths found'' (hd (resource_section w pc (resource, rd))))"
proof (intro conjI impI)
  assume run: "get_resources_of w table s = Inr (rr, cov)" and rd: "(resource, rd) \<in> set rr"
    and none: "find_executable_paths w resource = Inr []" "extra_paths_of w s resource = []"
  from get_resources_of_entries [OF run rd] none(1) obtain a where
    "paths rd = path_mapping w s resource a []" by auto
  with none(2) show "paths rd = []" by (simp add: path_mapping_def)
  from section_in_report [OF rd]
  show "\<exists>before after. generate_report w rr cov
            = before @ resource_section w (build_path_counts rr) (resource, rd) @ after" .
next
  assume "paths rd = []"
  then show "hd (resource_section w pc (resource, rd)) = resource @ '': No paths found''"
    by (simp add: hd_resource_section)
next
  assume "paths rd \<noteq> []"
  then show "hd (resource_section w pc (resource, rd)) = resource @ '': ''"
    by (simp add: hd_resource_section)
  then show "\<not> suffix ''No paths found'' (hd (resource_section w pc (resource, rd)))"
    by (simp add: not_suffix_no_paths)
qed

lemma git_lookups:
  "find_executable_paths example_host ''git'' = Inr []
   \<and> extra_paths_of example_host True ''git'' = []"
  by code_simp

lemma git_report:
  "generate_report example_host git_results {}
     = [''git: No paths found'',
        tab # ''Latest Available Version: Error fetching data: connection refused  -  https://git-scm.com/'',
        [],
        ''Uncovered PATH Directories:'', ''  /usr/bin'', ''  /opt/bin'', [],
        ''Environment Variables:'',
        ''  PATH: :/usr/bin::/opt/bin:'', ''  JAVA_HOME: Not Set'', ''  PYTHON_HOME: Not Set'']"
  by code_simp

theorem no_paths_found_line_witness:
  "get_resources_of example_host git_table True = Inr (git_results, {})
   \<and> paths (snd (hd git_results)) = []
   \<and> hd (generate_report example_host git_results {}) = ''git: No paths found''
   \<and> hd (resource_section example_host Map.empty (hd git_results)) = ''git: No paths found''
   \<and> paths (snd (hd (example_results False))) \<noteq> []
   \<and> hd (resource_section example_host Map.empty (hd (example_results False))) = ''node: ''"
proof -
  have g: "hd git_results = (''git'', snd (hd git_results))"
    and gm: "(''git'', snd (hd git_results)) \<in> set git_results"
    and n: "hd (example_results False) = (''node'', snd (hd (example_results False)))"
    and ne: "paths (snd (hd (example_results False))) \<noteq> []"
    by (simp_all add: git_results_def example_results_def example_paths_def)
  note t1 = no_paths_found_line [of example_host git_table True git_results "{}" "''git''"
              "snd (hd git_results)" Map.empty]
  note t2 = no_paths_found_line [of example_host git_table True git_results "{}" "''node''"
              "snd (hd (example_results False))" Map.empty]
  from t1 git_run gm git_lookups have "paths (snd (hd git_results)) = []" by blast
  with t1 t2 ne g n git_run git_report show ?thesis by simp
qed

section \<open>The hierarchy\<close>

lemma has_chain_empty: "has_chain (Hier []) ks \<longleftrightarrow> ks = []"
  by (cases ks) auto

lemma map_of_append_new:
  "map_of kids part = None \<Longrightarrow>
     map_of (kids @ [(part, v)]) k = (if k = part then Some v else map_of kids k)"
  by (induction kids) auto

lemma has_chain_setdefault:
  "has_chain (setdefault_chain parts h) ks \<longleftrightarrow> has_chain h ks \<or> prefix ks parts"
proof (induction parts arbitrary: h ks)
  case Nil
  show ?case by (cases ks) auto
next
  case (Cons part parts)
  obtain kids where h: "h = Hier kids" by (cases h)
  show ?case
  proof (cases ks)
    case Nil
    then show ?thesis by simp
  next
    case (Cons k ks')
    show ?thesis
    proof (cases "map_of kids part")
      case None
      then show ?thesis
        using Cons.IH [of "Hier []" ks']
        by (auto simp: h Cons map_of_append_new has_chain_empty simp del: map_of_append)
    next
      case (Some sub)
      then show ?thesis
        using Cons.IH [of sub ks']
        by (auto simp: h Cons map_of_dict_set)
    qed
  qed
qed

lemma snd_fold_path_step:
  "snd (fold path_step pm (report, h))
     = fold (\<lambda>(p, d) h. if \<not> InPath d then setdefault_chain (split_on bslash p) h else h)
         pm h"
  by (induction pm arbitrary: report h) (auto simp: path_step_def)

lemma has_chain_fold:
  "has_chain
     (fold (\<lambda>(p, d) h. if \<not> InPath d then setdefault_chain (split_on bslash p) h else h)
        pm h) ks
   \<longleftrightarrow> has_chain h ks
         \<or> (\<exists>(p, d) \<in> set pm. \<not> InPath d \<and> prefix ks (split_on bslash p))"
proof (induction pm arbitrary: h)
  case Nil
  show ?case by simp
next
  case (Cons x pm)
  obtain p d where x: "x = (p, d)" by (cases x)
  show ?case
    unfolding x by (cases "InPath d") (auto simp: Cons.IH has_chain_setdefault)
qed

lemma has_chain_hierarchy_of:
  "has_chain (hierarchy_of pm) ks
     \<longleftrightarrow> ks = [] \<or> (\<exists>(p, d) \<in> set pm. \<not> InPath d \<and> prefix ks (split_on bslash p))"
  unfolding hierarchy_of_def snd_fold_path_step has_chain_fold has_chain_empty ..

text \<open>
  C2 says that the path \<open>/opt/foo/bin/node\<close>, discovered with \<open>InPath\<close> \<open>False\<close>, gives the
  chain \<open>opt\<close>, \<open>foo\<close>, \<open>bin\<close>, \<open>node\<close> of directories. \<open>generate_report\<close> splits a path
  at backslashes, whatever the platform: on this path of a POSIX host the hierarchy is one
  node, named by the whole path, and has no such chain.
\<close>

theorem posix_path_is_one_node:
  "InPath found_details = False
   \<and> hierarchy_of [(''/opt/foo/bin/node'', found_details)] = Hier [(''/opt/foo/bin/node'', Hier [])]
   \<and> \<not> has_chain (hierarchy_of [(''/opt/foo/bin/node'', found_details)])
         [''opt'', ''foo'', ''bin'', ''node'']"
  by code_simp

section \<open>A path found twice\<close>

lemma set_firsts: "set (firsts xs) = set xs"
  by (induction xs) auto

lemma distinct_firsts: "distinct (firsts xs)"
  by (induction xs) (auto simp: set_firsts)

lemma firsts_filter: "firsts (filter P xs) = filter P (firsts xs)"
proof (induction xs)
  case Nil
  show ?case by simp
next
  case (Cons x xs)
  show ?case
  proof (cases "P x")
    case True
    with Cons show ?thesis by (simp add: conj_commute)
  next
    case False
    then have "filter P (filter (\<lambda>y. y \<noteq> x) (firsts xs)) = filter P (firsts xs)"
      by (auto intro: filter_cong)
    with False Cons show ?thesis by simp
  qed
qed

lemma fold_dict_set_key_order:
  "map fst (fold (\<lambda>p. dict_set p (f p)) ps pm)
     = map fst pm @ filter (\<lambda>p. p \<notin> fst ` set pm) (firsts ps)"
proof (induction ps arbitrary: pm)
  case Nil
  show ?case by simp
next
  case (Cons q ps)
  show ?case
  proof (cases "q \<in> fst ` set pm")
    case True
    then have "filter (\<lambda>p. p \<notin> fst ` set pm) (filter (\<lambda>y. y \<noteq> q) (firsts ps))
        = filter (\<lambda>p. p \<notin> fst ` set pm) (firsts ps)"
      by (auto intro: filter_cong)
    with True show ?thesis by (simp add: Cons keys_dict_set map_fst_dict_set insert_absorb)
  next
    case False
    have "filter (\<lambda>p. p \<noteq> q \<and> p \<notin> fst ` set pm) (firsts ps)
        = filter (\<lambda>p. p \<notin> fst ` set pm) (filter (\<lambda>y. y \<noteq> q) (firsts ps))"
      by (auto intro: filter_cong)
    with False show ?thesis by (simp add: Cons keys_dict_set map_fst_dict_set)
  qed
qed

lemma fold_dict_set_distinct:
  "distinct (map fst pm) \<Longrightarrow> distinct (map fst (fold (\<lambda>p. dict_set p (f p)) ps pm))"
  by (induction ps arbitrary: pm) (auto simp: distinct_dict_set)

lemma fold_dict_set_value:
  "map_of (fold (\<lambda>p. dict_set p (f p)) ps pm) p
     = (if p \<in> set ps then Some (f p) else map_of pm p)"
  by (induction ps arbitrary: pm) (auto simp: map_of_dict_set)

lemma path_mapping_key_order:
  "map fst (path_mapping w s r a ps)
     = firsts ps @ filter (\<lambda>p. p \<notin> set ps) (firsts (extra_paths_of w s r))"
  unfolding path_mapping_def
  by (simp add: fold_dict_set_key_order set_firsts flip: set_map)

lemma path_mapping_distinct: "distinct (map fst (path_mapping w s r a ps))"
  unfolding path_mapping_def by (simp add: fold_dict_set_distinct)

lemma path_mapping_extra_value:
  "p \<in> set (extra_paths_of w s r) \<Longrightarrow>
     map_of (path_mapping w s r a ps) p = Some (entry_for w a False p)"
  unfolding path_mapping_def by (simp add: fold_dict_set_value)

text \<open>
  C9: when a path comes from the search path and again from the standard directories,
  the mapping of the resource has distinct keys, in the order of first discovery with
  the paths of the search path first; the entries before that path are those the search
  path alone gives; its entry has \<open>InPath\<close> \<open>False\<close>; and the hierarchy has the chain of
  its segments.
\<close>

theorem path_found_twice_has_one_entry:
  assumes "get_resources_of w table True = Inr (rr, cov)"
    and "(resource, rd) \<in> set rr"
    and "find_executable_paths w resource = Inr ps"
    and "path \<in> set ps"
    and "path \<in> set (search_in_standard_dirs w resource)"
  shows "distinct (map fst (paths rd))
    \<and> map fst (paths rd)
        = firsts ps @ filter (\<lambda>p. p \<notin> set ps) (firsts (search_in_standard_dirs w resource))
    \<and> takeWhile (\<lambda>p. p \<noteq> path) (map fst (paths rd)) = takeWhile (\<lambda>p. p \<noteq> path) (firsts ps)
    \<and> (\<exists>d. (path, d) \<in> set (paths rd))
    \<and> (\<forall>d. (path, d) \<in> set (paths rd) \<longrightarrow>
          InPath d = False \<and> Executable d = is_executable w path)
    \<and> has_chain (hierarchy_of (paths rd)) (split_on bslash path)"
proof -
  from get_resources_of_entries [OF assms(1,2)] assms(3) obtain a where
    pm: "paths rd = path_mapping w True resource a ps" by auto
  have extra: "extra_paths_of w True resource = search_in_standard_dirs w resource"
    by (simp add: extra_paths_of_def)
  have d: "distinct (map fst (paths rd))"
    unfolding pm by (rule path_mapping_distinct)
  have k: "map fst (paths rd)
        = firsts ps @ filter (\<lambda>p. p \<notin> set ps) (firsts (search_in_standard_dirs w resource))"
    unfolding pm path_mapping_key_order extra ..
  have t: "takeWhile (\<lambda>p. p \<noteq> path) (map fst (paths rd)) = takeWhile (\<lambda>p. p \<noteq> path) (firsts ps)"
    unfolding k using assms(4) by (intro takeWhile_append1 [of path]) (auto simp: set_firsts)
  have v: "map_of (paths rd) path = Some (entry_for w a False path)"
    unfolding pm using assms(5) by (simp add: path_mapping_extra_value extra)
  then have m: "(path, entry_for w a False path) \<in> set (paths rd)"
    by (rule map_of_SomeD)
  have u: "InPath d' = False \<and> Executable d' = is_executable w path"
    if "(path, d') \<in> set (paths rd)" for d'
  proof -
    from d that have "map_of (paths rd) path = Some d'" by simp
    with v show ?thesis by (simp add: entry_for_def)
  qed
  have "\<not> InPath (entry_for w a False path)" by (simp add: entry_for_def)
  with m have c: "has_chain (hierarchy_of (paths rd)) (split_on bslash path)"
    unfolding has_chain_hierarchy_of by blast
  from d k t m u c show ?thesis by blast
qed

theorem path_found_twice_has_one_entry_witness:
  "get_resources_of example_host RESOURCES True
     = Inr (example_results True, set [''/'', ''o'', ''p'', ''t'', ''b'', ''i'', ''n''])
   \<and> find_executable_paths example_host ''node''
       = Inr [''/usr/bin/node'', ''/usr/local/bin/node'', ''/opt/bin/node'']
   \<and> search_in_standard_dirs example_host ''node'' = [''/opt/bin/node'']
   \<and> map fst (paths (snd (hd (example_results True))))
       = [''/usr/bin/node'', ''/usr/local/bin/node'', ''/opt/bin/node'']
   \<and> map_of (paths (snd (hd (example_results True)))) ''/opt/bin/node''
       = Some \<lparr>Executable = True, Version = Some ''Error: exit status 2'', InPath = False\<rparr>
   \<and> has_chain (hierarchy_of (paths (snd (hd (example_results True))))) [''/opt/bin/node'']"
proof -
  have f: "find_executable_paths example_host ''node''
       = Inr [''/usr/bin/node'', ''/usr/local/bin/node'', ''/opt/bin/node'']"
    by code_simp
  have g: "search_in_standard_dirs example_host ''node'' = [''/opt/bin/node'']"
    by code_simp
  have m: "(''node'', snd (hd (example_results True))) \<in> set (example_results True)"
    by (simp add: example_results_def)
  have e: "map_of (paths (snd (hd (example_results True)))) ''/opt/bin/node''
       = Some \<lparr>Executable = True, Version = Some ''Error: exit status 2'', InPath = False\<rparr>"
    by (simp add: example_results_def example_paths_def)
  have sp: "split_on bslash ''/opt/bin/node'' = [''/opt/bin/node'']" by simp
  from path_found_twice_has_one_entry [OF example_run_standard m f, of "''/opt/bin/node''"] g
  have "map fst (paths (snd (hd (example_results True))))
          = [''/usr/bin/node'', ''/usr/local/bin/node'', ''/opt/bin/node'']"
    and "has_chain (hierarchy_of (paths (snd (hd (example_results True))))) [''/opt/bin/node'']"
    by (simp_all add: sp)
  with example_run_standard f g e show ?thesis by simp
qed

section \<open>The counts of path prefixes\<close>

lemma filter_eq_upt:
  "filter (\<lambda>i. i = m) [a ..< b] = (if a \<le> m \<and> m < b then [m] else [])"
  by (induction b) auto

lemma joined_prefix_eq:
  assumes "1 \<le> i"
  shows "join_with sep (take i (split_on sep p)) = s \<longleftrightarrow> take i (split_on sep p) = split_on sep s"
proof
  assume j: "join_with sep (take i (split_on sep p)) = s"
  have "take i (split_on sep p) \<noteq> []"
    using assms split_on_not_Nil [of sep p] by simp
  moreover have "\<forall>x \<in> set (take i (split_on sep p)). sep \<notin> set x"
    by (meson in_set_takeD split_on_sep_free)
  ultimately have "split_on sep (join_with sep (take i (split_on sep p))) = take i (split_on sep p)"
    by (rule split_join_with)
  with j show "take i (split_on sep p) = split_on sep s" by simp
next
  assume "take i (split_on sep p) = split_on sep s"
  then show "join_with sep (take i (split_on sep p)) = s" by (simp add: join_split_on)
qed

lemma take_eq_prefix:
  "i \<le> length ys \<Longrightarrow> take i ys = xs \<longleftrightarrow> i = length xs \<and> prefix xs ys"
  by (auto simp: prefix_def) (metis append_eq_conv_conj append_take_drop_id length_take min.absorb2)

lemma matching_prefix_indices:
  "filter (\<lambda>i. join_with sep (take i (split_on sep p)) = s) [1 ..< length (split_on sep p) + 1]
     = (if prefix (split_on sep s) (split_on sep p) then [length (split_on sep s)] else [])"
proof -
  let ?parts = "split_on sep p" and ?m = "length (split_on sep s)"
  have "filter (\<lambda>i. join_with sep (take i ?parts) = s) [1 ..< length ?parts + 1]
      = filter (\<lambda>i. i = ?m \<and> prefix (split_on sep s) ?parts) [1 ..< length ?parts + 1]"
  proof (rule filter_cong [OF refl])
    fix i assume "i \<in> set [1 ..< length ?parts + 1]"
    then have i: "1 \<le> i" "i \<le> length ?parts" by auto
    from joined_prefix_eq [OF i(1), of sep p s] take_eq_prefix [OF i(2), of "split_on sep s"]
    show "(join_with sep (take i ?parts) = s) = (i = ?m \<and> prefix (split_on sep s) ?parts)"
      by blast
  qed
  also have "\<dots> = (if prefix (split_on sep s) ?parts
                    then filter (\<lambda>i. i = ?m) [1 ..< length ?parts + 1] else [])"
    by simp
  also have "\<dots> = (if prefix (split_on sep s) ?parts then [?m] else [])"
  proof (cases "prefix (split_on sep s) ?parts")
    case True
    then have "?m \<le> length ?parts" by (rule prefix_length_le)
    moreover have "1 \<le> ?m" using split_on_not_Nil [of sep s] by (cases "split_on sep s") auto
    ultimately show ?thesis using True by (simp add: filter_eq_upt)
  next
    case False
    then show ?thesis by simp
  qed
  finally show ?thesis .
qed

lemma count_prefix_at:
  "count_prefix parts i pc s
     = (if join_with bslash (take i parts) = s then Some (counts_get pc s 0 + 1) else pc s)"
  by (auto simp: count_prefix_def Let_def)

lemma fold_count_prefix:
  "fold (count_prefix parts) idx pc s
     = (let n = length (filter (\<lambda>i. join_with bslash (take i parts) = s) idx)
        in if n = 0 then pc s else Some (counts_get pc s 0 + int n))"
proof (induction idx arbitrary: pc)
  case Nil
  show ?case by simp
next
  case (Cons i idx)
  define pc' where "pc' = count_prefix parts i pc"
  have here: "pc' s = (if join_with bslash (take i parts) = s
                       then Some (counts_get pc s 0 + 1) else pc s)"
    unfolding pc'_def by (rule count_prefix_at)
  then have got: "counts_get pc' s 0
                    = (if join_with bslash (take i parts) = s
                       then counts_get pc s 0 + 1 else counts_get pc s 0)"
    by (simp add: counts_get_def)
  have "fold (count_prefix parts) (i # idx) pc s = fold (count_prefix parts) idx pc' s"
    by (simp add: pc'_def)
  also note Cons [of pc']
  finally show ?case
    unfolding here got by (simp add: Let_def)
qed

lemma count_path_at:
  "count_path p pc s
     = (if prefix (split_on bslash s) (split_on bslash p)
        then Some (counts_get pc s 0 + 1) else pc s)"
  unfolding count_path_def Let_def fold_count_prefix matching_prefix_indices by simp

lemma fold_count_path:
  "fold count_path ps pc s
     = (let n = length (filter (\<lambda>p. prefix (split_on bslash s) (split_on bslash p)) ps)
        in if n = 0 then pc s else Some (counts_get pc s 0 + int n))"
proof (induction ps arbitrary: pc)
  case Nil
  show ?case by simp
next
  case (Cons p ps)
  define pc' where "pc' = count_path p pc"
  have here: "pc' s = (if prefix (split_on bslash s) (split_on bslash p)
                       then Some (counts_get pc s 0 + 1) else pc s)"
    unfolding pc'_def by (rule count_path_at)
  then have got: "counts_get pc' s 0
                    = (if prefix (split_on bslash s) (split_on bslash p)
                       then counts_get pc s 0 + 1 else counts_get pc s 0)"
    by (simp add: counts_get_def)
  have "fold count_path (p # ps) pc s = fold count_path ps pc' s"
    by (simp add: pc'_def)
  also note Cons [of pc']
  finally show ?case
    unfolding here got by (simp add: Let_def)
qed

lemma fold_count_pairs:
  "fold (\<lambda>(path, d) pc. count_path path pc) pm pc = fold count_path (map fst pm) pc"
  by (induction pm arbitrary: pc) auto

lemma build_path_counts_fold:
  "build_path_counts rr = fold count_path (discovered_paths rr) Map.empty"
proof -
  have "fold (\<lambda>(resource, rd) pc. fold (\<lambda>(path, d) pc. count_path path pc) (paths rd) pc) rr pc
      = fold count_path (concat (map (\<lambda>(resource, rd). map fst (paths rd)) rr)) pc" for pc
    by (induction rr arbitrary: pc) (auto simp: fold_count_pairs)
  then show ?thesis by (simp add: build_path_counts_def discovered_paths_def)
qed

text \<open>
  C3, as stated: the count of a prefix is the number of distinct discovered paths with
  that prefix. When the path \<open>x\<close> is discovered for two resources, the count of \<open>x\<close> is 2,
  and the distinct discovered paths with that prefix are one.
\<close>

theorem shared_path_is_counted_twice:
  "build_path_counts shared_path_results ''x'' = Some 2
   \<and> remdups (paths_under ''x'' shared_path_results) = [''x'']"
  by code_simp

text \<open>
  C3, amended: for paths written with backslashes only, as a Windows host gives them,
  and a key \<open>s\<close> so written, \<open>build_path_counts\<close> gives \<open>s\<close> the number of entries, over
  the mappings of all resources and whatever their \<open>InPath\<close>, whose path has segments
  that begin with the segments of \<open>s\<close>: a path discovered for two resources counts for
  each. A key with no such entry is absent. When no path is discovered for two
  resources, that is the number of distinct discovered paths with that prefix.
\<close>

theorem path_counts_count_entries:
  assumes "\<forall>p \<in> set (discovered_paths rr). CHR ''/'' \<notin> set p" and "CHR ''/'' \<notin> set s"
  shows "build_path_counts rr s
     = (if paths_under s rr = [] then None else Some (int (length (paths_under s rr))))
   \<and> (distinct (discovered_paths rr) \<longrightarrow>
        length (paths_under s rr)
          = card {p \<in> set (discovered_paths rr).
                    prefix (split_on bslash s) (split_on bslash p)})"
proof
  show "build_path_counts rr s
     = (if paths_under s rr = [] then None else Some (int (length (paths_under s rr))))"
    unfolding build_path_counts_fold fold_count_path paths_under_def
    by (simp add: counts_get_def Let_def)
  show "distinct (discovered_paths rr) \<longrightarrow>
        length (paths_under s rr)
          = card {p \<in> set (discovered_paths rr).
                    prefix (split_on bslash s) (split_on bslash p)}"
  proof
    assume "distinct (discovered_paths rr)"
    then have "distinct (paths_under s rr)" by (simp add: paths_under_def)
    then have "length (paths_under s rr) = card (set (paths_under s rr))"
      by (simp add: distinct_card)
    then show "length (paths_under s rr)
          = card {p \<in> set (discovered_paths rr).
                    prefix (split_on bslash s) (split_on bslash p)}"
      by (simp add: paths_under_def)
  qed
qed

theorem path_counts_count_entries_witness:
  "discovered_paths (one_path_results two_level_path) = [two_level_path]
   \<and> CHR ''/'' \<notin> set two_level_path
   \<and> build_path_counts (one_path_results two_level_path) ''C:'' = Some 1
   \<and> build_path_counts (one_path_results two_level_path) two_level_path = Some 1
   \<and> build_path_counts (one_path_results two_level_path) ''node'' = None
   \<and> discovered_paths shared_path_results = [''x'', ''x'']
   \<and> build_path_counts shared_path_results ''x'' = Some 2"
proof -
  have d: "discovered_paths (one_path_results two_level_path) = [two_level_path]"
    and e: "discovered_paths shared_path_results = [''x'', ''x'']"
    by (simp_all add: discovered_paths_def one_path_results_def shared_path_results_def)
  have s: "split_on bslash two_level_path = [''C:'', ''node'']"
    by (simp add: two_level_path_def)
  have h3: "CHR ''/'' \<notin> set two_level_path"
    by (simp add: two_level_path_def)
  have h1: "\<forall>p \<in> set (discovered_paths (one_path_results two_level_path)). CHR ''/'' \<notin> set p"
    unfolding d using h3 by simp
  have h2: "\<forall>p \<in> set (discovered_paths shared_path_results). CHR ''/'' \<notin> set p"
    unfolding e by simp
  from path_counts_count_entries [OF h1, of "''C:''"]
    path_counts_count_entries [OF h1 h3]
    path_counts_count_entries [OF h1, of "''node''"]
    path_counts_count_entries [OF h2, of "''x''"]
    h1 h2 h3
  show ?thesis by (simp add: paths_under_def d e s)
qed

end
